theory Spec2Isabelle
  imports Complex_Main "HOL-Library.AList"
begin

section \<open>Python values read from a JSON ledger\<close>

text \<open>
  The scripts under \<^verbatim>\<open>extensions/sqlite_graph\<close> work on what \<^verbatim>\<open>json.load\<close> returns:
  \<^verbatim>\<open>None\<close>, booleans, unbounded integers, floats, strings, lists and dictionaries with
  string keys. A dictionary is an association list in insertion order; a \<^typ>\<open>char\<close>
  stands for one code point below 256.
\<close>

datatype py_error =
  TypeError | AttributeError | ZeroDivisionError | OverflowError
  | FileNotFoundError | JSONDecodeError | OSError

text \<open>
  A Python float is an IEEE 754 binary64 value: a finite value is the rational number it
  denotes, with the negative zero, the two infinities (\<open>Inf True\<close> is the negative one) and
  NaN beside it.
\<close>

datatype pyfloat = Fl rat | NegZero | Inf bool | NaN

datatype json =
  JNull
  | JBool bool
  | JInt int
  | JFloat pyfloat
  | JStr string
  | JArr "json list"
  | JObj "(string \<times> json) list"

type_synonym dict = "(string \<times> json) list"

subsection \<open>Rounding to binary64\<close>

definition pow2 :: "int \<Rightarrow> rat" where
  "pow2 e = (if 0 \<le> e then 2 ^ nat e else 1 / 2 ^ nat (- e))"

function bit_length :: "int \<Rightarrow> nat" where
  \<comment> \<open>\<^verbatim>\<open>int.bit_length\<close> on a non-negative integer\<close>
  "bit_length n = (if n \<le> 0 then 0 else Suc (bit_length (n div 2)))"
  by pat_completeness auto
termination
  by (relation "measure nat") auto

declare bit_length.simps [simp del]

definition ilog2 :: "rat \<Rightarrow> int" where
  \<comment> \<open>for \<open>0 < x\<close>: the exponent \<open>e\<close> with \<open>2^e \<le> x < 2^(e+1)\<close>\<close>
  "ilog2 x =
     (let (p, q) = quotient_of x;
          d = int (bit_length p) - int (bit_length q)
      in if pow2 d \<le> x then d else d - 1)"

definition round_half_even :: "rat \<Rightarrow> int" where
  "round_half_even q =
     (let n = \<lfloor>q\<rfloor>; r = q - of_int n
      in if r < 1 / 2 then n else if 1 / 2 < r then n + 1
         else if even n then n else n + 1)"

definition round_double :: "rat \<Rightarrow> rat option" where
  \<comment> \<open>round-to-nearest-even of a magnitude \<open>0 \<le> x\<close> to 53 significant bits, with the
      subnormal range below \<open>2^-1022\<close>; \<open>None\<close> when the rounded value leaves the range\<close>
  "round_double x =
     (let e = max (ilog2 x) (- 1022);
          ulp = pow2 (e - 52);
          y = of_int (round_half_even (x / ulp)) * ulp
      in if pow2 1024 \<le> y then None else Some y)"

definition signed :: "bool \<Rightarrow> rat \<Rightarrow> pyfloat" where
  "signed neg y = (if y = 0 then (if neg then NegZero else Fl 0) else Fl (if neg then - y else y))"

fun is_negative :: "pyfloat \<Rightarrow> bool" where
  "is_negative (Fl x) = (x < 0)"
| "is_negative NegZero = True"
| "is_negative (Inf neg) = neg"
| "is_negative NaN = False"

fun is_zero :: "pyfloat \<Rightarrow> bool" where
  "is_zero (Fl x) = (x = 0)"
| "is_zero NegZero = True"
| "is_zero _ = False"

fun magnitude :: "pyfloat \<Rightarrow> rat" where
  "magnitude (Fl x) = \<bar>x\<bar>"
| "magnitude _ = 0"

subsection \<open>The arithmetic of \<^verbatim>\<open>/\<close>, \<^verbatim>\<open>*\<close> and \<^verbatim>\<open>==\<close>\<close>

definition int_true_divide :: "int \<Rightarrow> int \<Rightarrow> py_error + pyfloat" where
  \<comment> \<open>\<^verbatim>\<open>a / b\<close> on two ints: the exact quotient, correctly rounded\<close>
  "int_true_divide a b =
     (if b = 0 then Inl ZeroDivisionError
      else case round_double (\<bar>of_int a\<bar> / \<bar>of_int b\<bar>) of
             None \<Rightarrow> Inl OverflowError
           | Some y \<Rightarrow> Inr (signed ((a < 0) \<noteq> (b < 0)) y))"

definition float_of_int :: "int \<Rightarrow> py_error + pyfloat" where
  "float_of_int a =
     (case round_double \<bar>of_int a\<bar> of
        None \<Rightarrow> Inl OverflowError
      | Some y \<Rightarrow> Inr (signed (a < 0) y))"

definition float_div :: "pyfloat \<Rightarrow> pyfloat \<Rightarrow> py_error + pyfloat" where
  "float_div a b =
     (if is_zero b then Inl ZeroDivisionError
      else if a = NaN \<or> b = NaN then Inr NaN
      else let neg = (is_negative a \<noteq> is_negative b) in
        case (a, b) of
          (Inf _, Inf _) \<Rightarrow> Inr NaN
        | (Inf _, _) \<Rightarrow> Inr (Inf neg)
        | (_, Inf _) \<Rightarrow> Inr (signed neg 0)
        | _ \<Rightarrow> (case round_double (magnitude a / magnitude b) of
                  None \<Rightarrow> Inr (Inf neg)
                | Some y \<Rightarrow> Inr (signed neg y)))"

definition float_mul :: "pyfloat \<Rightarrow> pyfloat \<Rightarrow> pyfloat" where
  "float_mul a b =
     (if a = NaN \<or> b = NaN then NaN
      else let neg = (is_negative a \<noteq> is_negative b) in
        case (a, b) of
          (Inf _, _) \<Rightarrow> (if is_zero b then NaN else Inf neg)
        | (_, Inf _) \<Rightarrow> (if is_zero a then NaN else Inf neg)
        | _ \<Rightarrow> (case round_double (magnitude a * magnitude b) of
                  None \<Rightarrow> Inf neg
                | Some y \<Rightarrow> signed neg y))"

datatype number = NInt int | NFloat pyfloat

fun as_number :: "json \<Rightarrow> number option" where
  "as_number (JInt n) = Some (NInt n)"
| "as_number (JBool b) = Some (NInt (if b then 1 else 0))"
| "as_number (JFloat f) = Some (NFloat f)"
| "as_number _ = None"

fun to_float :: "number \<Rightarrow> py_error + pyfloat" where
  "to_float (NInt n) = float_of_int n"
| "to_float (NFloat f) = Inr f"

definition py_truediv :: "json \<Rightarrow> json \<Rightarrow> py_error + pyfloat" where
  "py_truediv v w =
     (case (as_number v, as_number w) of
        (Some (NInt a), Some (NInt b)) \<Rightarrow> int_true_divide a b
      | (Some x, Some y) \<Rightarrow>
          (case to_float x of Inl e \<Rightarrow> Inl e | Inr a \<Rightarrow>
           case to_float y of Inl e \<Rightarrow> Inl e | Inr b \<Rightarrow> float_div a b)
      | _ \<Rightarrow> Inl TypeError)"

definition py_eq_zero :: "json \<Rightarrow> bool" where
  \<comment> \<open>\<^verbatim>\<open>v == 0\<close>\<close>
  "py_eq_zero v =
     (case as_number v of
        Some (NInt n) \<Rightarrow> n = 0
      | Some (NFloat f) \<Rightarrow> is_zero f
      | None \<Rightarrow> False)"

subsection \<open>Dictionaries, \<^verbatim>\<open>len\<close> and iteration\<close>

definition dict_get :: "dict \<Rightarrow> string \<Rightarrow> json \<Rightarrow> json" where
  \<comment> \<open>\<^verbatim>\<open>d.get(key, default)\<close> on a dictionary\<close>
  "dict_get d k dflt = (case map_of d k of None \<Rightarrow> dflt | Some v \<Rightarrow> v)"

fun py_get :: "json \<Rightarrow> string \<Rightarrow> json \<Rightarrow> py_error + json" where
  \<comment> \<open>\<^verbatim>\<open>v.get(key, default)\<close> on any value: only a dictionary has the method\<close>
  "py_get (JObj d) k dflt = Inr (dict_get d k dflt)"
| "py_get _ k dflt = Inl AttributeError"

fun py_len :: "json \<Rightarrow> py_error + nat" where
  "py_len (JArr xs) = Inr (length xs)"
| "py_len (JObj d) = Inr (length d)"
| "py_len (JStr s) = Inr (length s)"
| "py_len _ = Inl TypeError"

fun py_iter :: "json \<Rightarrow> py_error + json list" where
  \<comment> \<open>the values a \<^verbatim>\<open>for\<close> loop visits: list elements, dictionary keys, one-character strings\<close>
  "py_iter (JArr xs) = Inr xs"
| "py_iter (JObj d) = Inr (map (\<lambda>kv. JStr (fst kv)) d)"
| "py_iter (JStr s) = Inr (map (\<lambda>c. JStr [c]) s)"
| "py_iter _ = Inl TypeError"

section \<open>\<^verbatim>\<open>scripts/update_compliance.py\<close>\<close>

definition calculate_compliance :: "dict \<Rightarrow> py_error + pyfloat" where
  "calculate_compliance coverage_data =
     (let stats_v = dict_get coverage_data ''statistics'' (JObj []) in
      case py_get stats_v ''total_scenarios'' (JInt 0) of Inl e \<Rightarrow> Inl e | Inr total_v \<Rightarrow>
      case py_get stats_v ''passed'' (JInt 0) of Inl e \<Rightarrow> Inl e | Inr passed_v \<Rightarrow>
      if py_eq_zero total_v then Inr (Fl 0)
      else case py_truediv passed_v total_v of Inl e \<Rightarrow> Inl e
           | Inr q \<Rightarrow> Inr (float_mul q (Fl 100)))"

text \<open>
  The local dictionary \<^verbatim>\<open>stats\<close> of \<^verbatim>\<open>update_statistics\<close> has five fixed integer
  entries while the loop runs; \<open>stats_items\<close> lists them in the order the dictionary
  literal inserts them.
\<close>

record stats =
  total_scenarios :: int
  passed :: int
  failed :: int
  skipped :: int
  pending :: int

definition stats_items :: "stats \<Rightarrow> dict" where
  "stats_items st =
     [(''total_scenarios'', JInt (total_scenarios st)),
      (''passed'', JInt (passed st)),
      (''failed'', JInt (failed st)),
      (''skipped'', JInt (skipped st)),
      (''pending'', JInt (pending st))]"

fun count_statuses :: "json list \<Rightarrow> stats \<Rightarrow> py_error + stats" where
  "count_statuses [] st = Inr st"
| "count_statuses (scenario # rest) st =
     (case py_get scenario ''status'' (JStr ''pending'') of
        Inl e \<Rightarrow> Inl e
      | Inr status \<Rightarrow>
          if status = JStr ''pass'' then count_statuses rest (st\<lparr>passed := passed st + 1\<rparr>)
          else if status = JStr ''fail'' then count_statuses rest (st\<lparr>failed := failed st + 1\<rparr>)
          else if status = JStr ''skip'' then count_statuses rest (st\<lparr>skipped := skipped st + 1\<rparr>)
          else count_statuses rest (st\<lparr>pending := pending st + 1\<rparr>))"

definition compute_statistics :: "json \<Rightarrow> py_error + json" where
  \<comment> \<open>lines 26 to 45: the dictionary \<^verbatim>\<open>stats\<close> built from the value of \<^verbatim>\<open>scenarios\<close>\<close>
  "compute_statistics scenarios =
     (case py_len scenarios of Inl e \<Rightarrow> Inl e | Inr n \<Rightarrow>
      case py_iter scenarios of Inl e \<Rightarrow> Inl e | Inr entries \<Rightarrow>
      case count_statuses entries
             \<lparr>total_scenarios = int n, passed = 0, failed = 0, skipped = 0, pending = 0\<rparr> of
        Inl e \<Rightarrow> Inl e
      | Inr st \<Rightarrow>
          (case calculate_compliance [(''statistics'', JObj (stats_items st))] of
             Inl e \<Rightarrow> Inl e
           | Inr c \<Rightarrow> Inr (JObj (stats_items st @ [(''compliance_percentage'', JFloat c)]))))"

definition update_statistics :: "dict \<Rightarrow> py_error + dict" where
  \<comment> \<open>the dictionary is mutated by the last statement only: an exception leaves it as it was\<close>
  "update_statistics coverage_data =
     (case compute_statistics (dict_get coverage_data ''scenarios'' (JArr [])) of
        Inl e \<Rightarrow> Inl e
      | Inr st \<Rightarrow> Inr (AList.update ''statistics'' st coverage_data))"


subsection \<open>\<^verbatim>\<open>main\<close>: load, recompute, write back\<close>







section \<open>\<^verbatim>\<open>parse_tck_scenarios.py\<close>\<close>

subsection \<open>Character classes of \<^verbatim>\<open>re\<close> and \<^verbatim>\<open>str\<close> below code point 256\<close>

definition is_word :: "char \<Rightarrow> bool" where
  \<comment> \<open>\<^verbatim>\<open>\w\<close>: alphanumeric or the underscore\<close>
  "is_word c =
     (let n = (of_char c :: nat)
      in (48 \<le> n \<and> n \<le> 57) \<or> (65 \<le> n \<and> n \<le> 90) \<or> n = 95 \<or> (97 \<le> n \<and> n \<le> 122)
         \<or> n = 170 \<or> n = 178 \<or> n = 179 \<or> n = 181 \<or> n = 185 \<or> n = 186
         \<or> (188 \<le> n \<and> n \<le> 190) \<or> (192 \<le> n \<and> n \<le> 214)
         \<or> (216 \<le> n \<and> n \<le> 246) \<or> 248 \<le> n)"

definition is_space :: "char \<Rightarrow> bool" where
  \<comment> \<open>\<^verbatim>\<open>\s\<close> and \<^verbatim>\<open>str.isspace\<close>\<close>
  "is_space c =
     (let n = (of_char c :: nat)
      in (9 \<le> n \<and> n \<le> 13) \<or> (28 \<le> n \<and> n \<le> 32) \<or> n = 133 \<or> n = 160)"

definition lower :: "char \<Rightarrow> char" where
  "lower c =
     (let n = (of_char c :: nat)
      in if (65 \<le> n \<and> n \<le> 90) \<or> (192 \<le> n \<and> n \<le> 214) \<or> (216 \<le> n \<and> n \<le> 222)
         then char_of (n + 32) else c)"

definition newline :: char where
  "newline = CHR 0x0A"

subsection \<open>The regular expressions the script uses\<close>

text \<open>
  The patterns of the script are built from literals, \<^verbatim>\<open>.\<close>, \<^verbatim>\<open>\w\<close>, \<^verbatim>\<open>\s\<close>, greedy
  \<^verbatim>\<open>*\<close> and \<^verbatim>\<open>+\<close> on one of these, \<^verbatim>\<open>^\<close> and \<^verbatim>\<open>$\<close> (always under
  \<^verbatim>\<open>re.MULTILINE\<close>), \<^verbatim>\<open>\b\<close>, sequence, alternation and capturing groups. The matcher
  returns every way to match from a cursor, in the order a backtracking matcher tries
  them: the head of the list is the match \<^verbatim>\<open>re\<close> reports. A cursor is the character before
  the position, the text from the position on, and the groups captured so far.
\<close>

datatype atom = Lit char | Dot | WordChar | Space

datatype regex =
  Eps
  | Atom atom
  | Star atom
  | Plus atom
  | Bol
  | Eol
  | WordB
  | Seq regex regex
  | Alt regex regex
  | Group regex

type_synonym cursor = "char option \<times> string \<times> string list"

fun accepts :: "bool \<Rightarrow> atom \<Rightarrow> char \<Rightarrow> bool" where
  "accepts ic (Lit p) c = (if ic then lower c = lower p else c = p)"
| "accepts ic Dot c = (c \<noteq> newline)"
| "accepts ic WordChar c = is_word c"
| "accepts ic Space c = is_space c"

definition advance :: "cursor \<Rightarrow> nat \<Rightarrow> cursor" where
  "advance cur k =
     (case cur of (p, s, g) \<Rightarrow> (if k = 0 then p else Some (last (take k s)), drop k s, g))"

definition word_before :: "cursor \<Rightarrow> bool" where
  "word_before cur = (case cur of (p, s, g) \<Rightarrow> (case p of None \<Rightarrow> False | Some c \<Rightarrow> is_word c))"

definition word_after :: "cursor \<Rightarrow> bool" where
  "word_after cur = (case cur of (p, s, g) \<Rightarrow> (case s of [] \<Rightarrow> False | c # cs \<Rightarrow> is_word c))"

fun rmatch :: "bool \<Rightarrow> regex \<Rightarrow> cursor \<Rightarrow> cursor list" where
  "rmatch ic Eps cur = [cur]"
| "rmatch ic (Atom a) (p, s, g) =
     (case s of [] \<Rightarrow> [] | c # cs \<Rightarrow> if accepts ic a c then [(Some c, cs, g)] else [])"
| "rmatch ic (Star a) (p, s, g) =
     map (advance (p, s, g)) (rev [0 ..< Suc (length (takeWhile (accepts ic a) s))])"
| "rmatch ic (Plus a) (p, s, g) =
     map (advance (p, s, g)) (rev [1 ..< Suc (length (takeWhile (accepts ic a) s))])"
| "rmatch ic Bol (p, s, g) = (if p = None \<or> p = Some newline then [(p, s, g)] else [])"
| "rmatch ic Eol (p, s, g) = (if s = [] \<or> hd s = newline then [(p, s, g)] else [])"
| "rmatch ic WordB cur = (if word_before cur \<noteq> word_after cur then [cur] else [])"
| "rmatch ic (Seq a b) cur = concat (map (rmatch ic b) (rmatch ic a cur))"
| "rmatch ic (Alt a b) cur = rmatch ic a cur @ rmatch ic b cur"
| "rmatch ic (Group a) (p, s, g) =
     map (\<lambda>(p', s', g'). (p', s', g' @ [take (length s - length s') s])) (rmatch ic a (p, s, g))"

fun search_from :: "bool \<Rightarrow> regex \<Rightarrow> char option \<Rightarrow> string \<Rightarrow> string list option" where
  "search_from ic r p [] =
     (case rmatch ic r (p, [], []) of [] \<Rightarrow> None | (p', s', g) # _ \<Rightarrow> Some g)"
| "search_from ic r p (c # cs) =
     (case rmatch ic r (p, c # cs, []) of
        [] \<Rightarrow> search_from ic r (Some c) cs
      | (p', s', g) # _ \<Rightarrow> Some g)"

definition re_search :: "bool \<Rightarrow> regex \<Rightarrow> string \<Rightarrow> string list option" where
  \<comment> \<open>\<^verbatim>\<open>re.search\<close>: the groups of the leftmost match, \<open>None\<close> without a match\<close>
  "re_search ic r s = search_from ic r None s"

function findall_from :: "bool \<Rightarrow> regex \<Rightarrow> char option \<Rightarrow> string \<Rightarrow> string list list" where
  "findall_from ic r p s =
     (case rmatch ic r (p, s, []) of
        [] \<Rightarrow> (case s of [] \<Rightarrow> [] | c # cs \<Rightarrow> findall_from ic r (Some c) cs)
      | (p', s', g) # _ \<Rightarrow>
          g # (if length s' < length s then findall_from ic r p' s'
               else (case s of [] \<Rightarrow> [] | c # cs \<Rightarrow> findall_from ic r (Some c) cs)))"
  by pat_completeness auto
termination
  by (relation "measure (\<lambda>(ic, r, p, s). length s)") auto

declare findall_from.simps [simp del]

definition re_findall :: "bool \<Rightarrow> regex \<Rightarrow> string \<Rightarrow> string list list" where
  \<comment> \<open>\<^verbatim>\<open>re.findall\<close>: the groups of the successive matches, left to right\<close>
  "re_findall ic r s = findall_from ic r None s"

definition seqs :: "regex list \<Rightarrow> regex" where
  "seqs rs = foldr Seq rs Eps"

definition lits :: "string \<Rightarrow> regex" where
  "lits s = seqs (map (\<lambda>c. Atom (Lit c)) s)"

definition phrase :: "string \<Rightarrow> regex" where
  \<comment> \<open>\<^verbatim>\<open>\b...\b\<close> around a literal phrase\<close>
  "phrase s = seqs [WordB, lits s, WordB]"

definition error_raised :: "string \<Rightarrow> regex" where
  \<comment> \<open>\<^verbatim>\<open>\bThen a \w+Error should be raised\b\<close> and its \<^verbatim>\<open>And\<close> form\<close>
  "error_raised start =
     seqs [WordB, lits start, lits '' a '', Plus WordChar, lits ''Error should be raised'', WordB]"


subsection \<open>String operations\<close>

fun split_on :: "char \<Rightarrow> string \<Rightarrow> string list" where
  \<comment> \<open>\<^verbatim>\<open>s.split(c)\<close> for a one-character separator\<close>
  "split_on c [] = [[]]"
| "split_on c (x # xs) =
     (if x = c then [] # split_on c xs
      else (case split_on c xs of [] \<Rightarrow> [[x]] | y # ys \<Rightarrow> (x # y) # ys))"

fun join :: "string \<Rightarrow> string list \<Rightarrow> string" where
  \<comment> \<open>\<^verbatim>\<open>sep.join(parts)\<close>\<close>
  "join sep [] = []"
| "join sep [x] = x"
| "join sep (x # y # ys) = x @ sep @ join sep (y # ys)"

function py_replace :: "string \<Rightarrow> string \<Rightarrow> string \<Rightarrow> string" where
  \<comment> \<open>\<^verbatim>\<open>s.replace(old, new)\<close>: every occurrence, left to right, without overlap\<close>
  "py_replace old new s =
     (if old = [] then new @ concat (map (\<lambda>c. c # new) s)
      else if s = [] then []
      else if take (length old) s = old then new @ py_replace old new (drop (length old) s)
      else hd s # py_replace old new (tl s))"
  by pat_completeness auto
termination
  by (relation "measure (\<lambda>(old, new, s). length s)") auto

declare py_replace.simps [simp del]

definition strip :: "string \<Rightarrow> string" where
  "strip s = rev (dropWhile is_space (rev (dropWhile is_space s)))"

fun digits :: "nat \<Rightarrow> string" where
  "digits n =
     (if n < 10 then [char_of (48 + n)] else digits (n div 10) @ [char_of (48 + n mod 10)])"

declare digits.simps [simp del]

definition format_02d :: "nat \<Rightarrow> string" where
  \<comment> \<open>the format \<^verbatim>\<open>02d\<close>: decimal digits, padded with zeros on the left to two characters\<close>
  "format_02d n = replicate (2 - length (digits n)) (CHR ''0'') @ digits n"

subsection \<open>The functions of the script\<close>

record scenario_info =
  scenario_id :: string
  scenario_name :: string
  scenario_type :: string
  feature_name :: string
  file_path :: string
  language_area :: string
  requires_runtime :: bool

definition determine_language_area :: "string \<Rightarrow> string" where
  "determine_language_area path =
     (let parts = split_on (CHR ''/'') path
      in if 2 \<le> length parts
         then (if 3 \<le> length parts then parts ! 0 @ ''.'' @ parts ! 1 else parts ! 0)
         else ''unknown'')"

definition runtime_indicators :: "regex list" where
  "runtime_indicators =
     [phrase ''And the result should be'',
      phrase ''Then the result should be'',
      phrase ''And the side effects should be'',
      phrase ''Then the side effects should be'',
      phrase ''When executing query'',
      phrase ''And executing query'',
      error_raised ''Then'',
      error_raised ''And'',
      phrase ''no side effects'',
      phrase ''rows in any order'',
      phrase ''rows in order'']"

definition parse_validate_indicators :: "regex list" where
  "parse_validate_indicators =
     [phrase ''Then a SyntaxError should be raised'',
      phrase ''And a SyntaxError should be raised'',
      phrase ''should fail to parse'',
      phrase ''parse error'']"

definition setup_pattern :: regex where
  "setup_pattern =
     Alt (phrase ''Given an empty graph'')
       (Alt (phrase ''Given any graph'') (phrase ''When executing query''))"

definition found :: "regex \<Rightarrow> string \<Rightarrow> bool" where
  \<comment> \<open>\<^verbatim>\<open>re.search(indicator, content, re.IGNORECASE)\<close> as a condition\<close>
  "found r content = (re_search True r content \<noteq> None)"

definition check_requires_runtime :: "string \<Rightarrow> string \<Rightarrow> bool" where
  "check_requires_runtime content name =
     (if list_ex (\<lambda>indicator. found indicator content) parse_validate_indicators then False
      else if list_ex (\<lambda>indicator. found indicator content) runtime_indicators then True
      else if found setup_pattern content then True
      else False)"

definition feature_pattern :: regex where
  \<comment> \<open>\<^verbatim>\<open>^Feature:\s*(.+)$\<close>\<close>
  "feature_pattern = seqs [Bol, lits ''Feature:'', Star Space, Group (Plus Dot), Eol]"

definition scenario_pattern :: regex where
  \<comment> \<open>\<^verbatim>\<open>^  (Scenario|Scenario Outline):\s*(.+)$\<close>\<close>
  "scenario_pattern =
     seqs [Bol, lits ''  '', Group (Alt (lits ''Scenario'') (lits ''Scenario Outline'')),
           lits '':'', Star Space, Group (Plus Dot), Eol]"

definition make_scenario_id :: "string \<Rightarrow> nat \<Rightarrow> string" where
  \<comment> \<open>lines 28 and 29, for the loop index \<open>i\<close>\<close>
  "make_scenario_id relative_path i =
     (let path_parts = split_on (CHR ''/'') (py_replace ''.feature'' [] relative_path)
      in join ''-'' path_parts @ ''-'' @ format_02d (i + 1))"

text \<open>
  \<open>parse_feature_file\<close> takes what the source obtains from the file system: the path of
  the document relative to the corpus root (\<^verbatim>\<open>os.path.relpath\<close>) and its text.
\<close>

definition parse_feature_file :: "string \<Rightarrow> string \<Rightarrow> scenario_info list" where
  "parse_feature_file relative_path content =
     (let name_of_feature =
            (case re_search False feature_pattern content of
               Some g \<Rightarrow> strip (g ! 0)
             | None \<Rightarrow> ''Unknown'');
          scenarios_found = re_findall False scenario_pattern content
      in map (\<lambda>(i, groups).
                \<lparr>scenario_id = make_scenario_id relative_path i,
                 scenario_name = strip (groups ! 1),
                 scenario_type = groups ! 0,
                 feature_name = name_of_feature,
                 file_path = relative_path,
                 language_area = determine_language_area relative_path,
                 requires_runtime = check_requires_runtime content (groups ! 1)\<rparr>)
           (enumerate 0 scenarios_found))"

definition all_scenarios :: "(string \<times> string) list \<Rightarrow> scenario_info list" where
  \<comment> \<open>the walk of \<^verbatim>\<open>main\<close> over the readable feature documents, as (relative path, text)\<close>
  "all_scenarios docs = concat (map (\<lambda>(path, content). parse_feature_file path content) docs)"

section \<open>Notions used to state the properties\<close>

text \<open>
  A well-formed ledger has a list of dictionaries under \<^verbatim>\<open>scenarios\<close>, or no such key at
  all; \<open>ledger_entries\<close> gives that list. \<open>status_is s\<close> holds of an entry whose
  \<^verbatim>\<open>status\<close> is the string \<open>s\<close>, \<open>other_status\<close> of an entry with any other status or
  none, and \<open>tally\<close> counts the entries that satisfy a condition.
\<close>

fun is_dict :: "json \<Rightarrow> bool" where
  "is_dict (JObj d) = True"
| "is_dict _ = False"

definition status_is :: "string \<Rightarrow> json \<Rightarrow> bool" where
  "status_is s entry = (case entry of JObj d \<Rightarrow> map_of d ''status'' = Some (JStr s) | _ \<Rightarrow> False)"

definition other_status :: "json \<Rightarrow> bool" where
  "other_status entry =
     (\<not> status_is ''pass'' entry \<and> \<not> status_is ''fail'' entry \<and> \<not> status_is ''skip'' entry)"

definition tally :: "(json \<Rightarrow> bool) \<Rightarrow> json list \<Rightarrow> int" where
  "tally P entries = int (length (filter P entries))"

definition stats_block :: "json list \<Rightarrow> pyfloat \<Rightarrow> json" where
  "stats_block entries c =
     JObj [(''total_scenarios'', JInt (int (length entries))),
           (''passed'', JInt (tally (status_is ''pass'') entries)),
           (''failed'', JInt (tally (status_is ''fail'') entries)),
           (''skipped'', JInt (tally (status_is ''skip'') entries)),
           (''pending'', JInt (tally other_status entries)),
           (''compliance_percentage'', JFloat c)]"

definition ledger_entries :: "dict \<Rightarrow> json list option" where
  "ledger_entries cd =
     (case map_of cd ''scenarios'' of
        None \<Rightarrow> Some []
      | Some (JArr xs) \<Rightarrow> if list_all is_dict xs then Some xs else None
      | Some _ \<Rightarrow> None)"

definition statistics_block :: "py_error + dict \<Rightarrow> py_error + json option" where
  "statistics_block r = (case r of Inl e \<Rightarrow> Inl e | Inr cd \<Rightarrow> Inr (map_of cd ''statistics''))"

definition compliance_value :: "json list \<Rightarrow> pyfloat \<Rightarrow> bool" where
  "compliance_value entries c =
     (if entries = [] then c = Fl 0
      else case int_true_divide (tally (status_is ''pass'') entries) (int (length entries)) of
             Inl e \<Rightarrow> False
           | Inr q \<Rightarrow> c = float_mul q (Fl 100))"

definition sample_scenarios :: "json list" where
  "sample_scenarios =
     [JObj [(''scenario_id'', JStr ''a-01''), (''status'', JStr ''pass'')],
      JObj [(''scenario_id'', JStr ''a-02'')],
      JObj [(''scenario_id'', JStr ''a-03''), (''status'', JStr ''skip''), (''note'', JNull)]]"

definition sample_ledger :: dict where
  "sample_ledger =
     [(''generated'', JStr ''2024''),
      (''scenarios'', JArr sample_scenarios),
      (''statistics'', JObj [(''passed'', JInt 7)])]"

text \<open>
  The identifier as the specification words it: the extension is stripped from the end of
  the path, the rest is split at the separators, joined with dashes and followed by the
  two-digit index. \<open>extension_only\<close> holds of a path that ends with \<^verbatim>\<open>.feature\<close> and has
  no other occurrence of these eight characters; \<open>dashed\<close> replaces every separator of a
  path by a dash; \<open>decimal_value\<close> reads a string of digits.
\<close>

definition dashed :: "string \<Rightarrow> string" where
  "dashed s = map (\<lambda>c. if c = CHR ''/'' then CHR ''-'' else c) s"

definition extension_only :: "string \<Rightarrow> bool" where
  "extension_only path =
     (8 \<le> length path \<and> drop (length path - 8) path = ''.feature''
      \<and> list_all (\<lambda>k. take 8 (drop k path) \<noteq> ''.feature'') [0 ..< length path - 8])"

definition strip_extension :: "string \<Rightarrow> string" where
  "strip_extension path =
     (if 8 \<le> length path \<and> drop (length path - 8) path = ''.feature''
      then take (length path - 8) path else path)"

definition spec_scenario_id :: "string \<Rightarrow> nat \<Rightarrow> string" where
  "spec_scenario_id path index =
     join ''-'' (split_on (CHR ''/'') (strip_extension path)) @ ''-'' @ format_02d index"

definition decimal_value :: "string \<Rightarrow> nat" where
  "decimal_value ds = foldl (\<lambda>a c. 10 * a + (of_char c - 48)) 0 ds"

text \<open>Sample documents and corpora.\<close>

definition one_scenario :: string where
  "one_scenario = ''  Scenario: x''"

definition doc_addition :: string where
  "doc_addition = ''Feature: Addition\<newline>  Scenario: 1+1\<newline>  Scenario: 2+2\<newline>''"

definition doc_mixed :: string where
  "doc_mixed = ''Feature: F\<newline>  Scenario: a\<newline>    Then the result should be\<newline>  Scenario: b\<newline>    Then it should fail to parse\<newline>''"

definition corpus_clash :: "(string \<times> string) list" where
  "corpus_clash = [(''a/b.feature'', one_scenario), (''a-b.feature'', one_scenario)]"

definition corpus_plain :: "(string \<times> string) list" where
  "corpus_plain = [(''a/b.feature'', one_scenario), (''c.feature'', one_scenario)]"





section \<open>Properties of the statistics recomputation\<close>

subsection \<open>Counting\<close>

lemma tally_Nil: "tally P [] = 0"
  by (simp add: tally_def)

lemma tally_Cons: "tally P (x # xs) = (if P x then 1 else 0) + tally P xs"
  by (simp add: tally_def)

lemma status_cases:
  assumes "is_dict entry"
  obtains d where "entry = JObj d"
  using assms by (cases entry) auto

lemma count_statuses_dicts:
  "list_all is_dict entries \<Longrightarrow>
   count_statuses entries st =
     Inr (st\<lparr>passed := passed st + tally (status_is ''pass'') entries,
             failed := failed st + tally (status_is ''fail'') entries,
             skipped := skipped st + tally (status_is ''skip'') entries,
             pending := pending st + tally other_status entries\<rparr>)"
proof (induction entries arbitrary: st)
  case Nil
  then show ?case by (simp add: tally_Nil)
next
  case (Cons entry entries)
  then obtain d where d: "entry = JObj d" by (auto elim: status_cases)
  from Cons have rest: "list_all is_dict entries" by simp
  show ?case
    by (simp add: d Cons.IH [OF rest] tally_Cons status_is_def other_status_def dict_get_def
        split: option.splits)
qed

lemma tally_partition:
  "tally (status_is ''pass'') entries + tally (status_is ''fail'') entries
     + tally (status_is ''skip'') entries + tally other_status entries = int (length entries)"
  by (induction entries) (auto simp: tally_Nil tally_Cons other_status_def status_is_def split: json.splits)


lemma bit_length_mono: "m \<le> n \<Longrightarrow> bit_length m \<le> bit_length n"
proof (induction n arbitrary: m rule: bit_length.induct)
  case (1 n)
  show ?case
  proof (cases "m \<le> 0")
    case True
    then show ?thesis by (simp add: bit_length.simps [of m])
  next
    case False
    with "1.prems" have n: "\<not> n \<le> 0" by simp
    have "m div 2 \<le> n div 2" using "1.prems" by (rule zdiv_mono1) simp
    from "1.IH" [OF n this] show ?thesis
      using False n by (simp add: bit_length.simps [of m] bit_length.simps [of n])
  qed
qed

lemma pow2_pos: "0 < pow2 e"
  by (simp add: pow2_def)

lemma pow2_le_one: "e \<le> 0 \<Longrightarrow> pow2 e \<le> 1"
  by (auto simp: pow2_def divide_le_eq)

lemma ilog2_le_zero:
  assumes "0 \<le> x" "x \<le> 1"
  shows "ilog2 x \<le> 0"
proof -
  obtain p q where pq: "quotient_of x = (p, q)" by (cases "quotient_of x")
  then have q: "0 < q" and x: "x = of_int p / of_int q"
    by (auto simp: quotient_of_denom_pos quotient_of_div)
  from assms x q have "0 \<le> p" "p \<le> q"
    by (auto simp: zero_le_divide_iff divide_le_eq)
  then have "bit_length p \<le> bit_length q" by (intro bit_length_mono)
  then show ?thesis by (simp add: ilog2_def pq Let_def)
qed

lemma round_half_even_le: "of_int (round_half_even q) \<le> q + 1"
proof -
  have "rat_of_int \<lfloor>q\<rfloor> \<le> q" by simp
  then have "rat_of_int \<lfloor>q\<rfloor> \<le> q + 1" "rat_of_int (\<lfloor>q\<rfloor> + 1) \<le> q + 1" by linarith+
  moreover have "round_half_even q = \<lfloor>q\<rfloor> \<or> round_half_even q = \<lfloor>q\<rfloor> + 1"
    by (simp add: round_half_even_def Let_def)
  ultimately show ?thesis by metis
qed

lemma round_half_even_nonneg: "0 \<le> q \<Longrightarrow> 0 \<le> round_half_even q"
  by (auto simp: round_half_even_def Let_def)

lemma round_double_unit:
  assumes "0 \<le> x" "x \<le> 1"
  shows "\<exists>y. round_double x = Some y \<and> 0 \<le> y"
proof -
  define e where "e = max (ilog2 x) (- 1022)"
  define ulp where "ulp = pow2 (e - 52)"
  define y where "y = of_int (round_half_even (x / ulp)) * ulp"
  have "e \<le> 0" using ilog2_le_zero [OF assms] by (simp add: e_def)
  then have ulp1: "ulp \<le> 1" unfolding ulp_def by (intro pow2_le_one) simp
  have ulp0: "0 < ulp" by (simp add: ulp_def pow2_pos)
  have "y \<le> (x / ulp + 1) * ulp"
    unfolding y_def using ulp0 round_half_even_le [of "x / ulp"]
    by (intro mult_right_mono) auto
  also have "\<dots> = x + ulp" using ulp0 by (simp add: field_simps)
  also have "\<dots> \<le> 2" using assms ulp1 by simp
  finally have y2: "y \<le> 2" .
  have "(2::rat) ^ 1 < 2 ^ 1024" by (rule power_strict_increasing) simp_all
  then have "(2::rat) < pow2 1024" by (simp add: pow2_def)
  with y2 have lt: "\<not> pow2 1024 \<le> y" by simp
  have "0 \<le> x / ulp" using assms ulp0 by simp
  then have "0 \<le> y" unfolding y_def using ulp0 round_half_even_nonneg [of "x / ulp"] by simp
  moreover have "round_double x = Some y"
    using lt by (simp add: round_double_def Let_def e_def ulp_def y_def)
  ultimately show ?thesis by blast
qed

lemma int_true_divide_fraction:
  assumes "0 \<le> p" "p \<le> t" "t \<noteq> 0"
  shows "\<exists>q. int_true_divide p t = Inr q"
proof -
  from assms have t: "0 < t" by simp
  have "0 \<le> \<bar>rat_of_int p\<bar> / \<bar>rat_of_int t\<bar>" by simp
  moreover have "\<bar>rat_of_int p\<bar> / \<bar>rat_of_int t\<bar> \<le> 1"
    using assms t by (simp add: divide_le_eq)
  ultimately obtain y where "round_double (\<bar>rat_of_int p\<bar> / \<bar>rat_of_int t\<bar>) = Some y"
    using round_double_unit by blast
  then show ?thesis using assms by (simp add: int_true_divide_def)
qed

lemma map_of_stats_items:
  "map_of (stats_items st) ''total_scenarios'' = Some (JInt (total_scenarios st))"
  "map_of (stats_items st) ''passed'' = Some (JInt (passed st))"
  by (simp_all add: stats_items_def)

lemma calculate_compliance_stats:
  "calculate_compliance [(''statistics'', JObj (stats_items st))] =
     (if total_scenarios st = 0 then Inr (Fl 0)
      else case int_true_divide (passed st) (total_scenarios st) of
             Inl e \<Rightarrow> Inl e
           | Inr q \<Rightarrow> Inr (float_mul q (Fl 100)))"
  by (simp add: calculate_compliance_def dict_get_def map_of_stats_items py_eq_zero_def
      py_truediv_def)

lemma tally_bounds: "0 \<le> tally P entries" "tally P entries \<le> int (length entries)"
  by (simp_all add: tally_def)


lemma ledger_entries_get:
  "ledger_entries cd = Some entries \<Longrightarrow>
   dict_get cd ''scenarios'' (JArr []) = JArr entries \<and> list_all is_dict entries"
  by (auto simp: ledger_entries_def dict_get_def split: option.splits json.splits if_splits)

lemma compute_statistics_entries:
  assumes "list_all is_dict entries"
  shows "\<exists>c. compute_statistics (JArr entries) = Inr (stats_block entries c)
              \<and> compliance_value entries c"
proof -
  let ?init = "\<lparr>total_scenarios = int (length entries), passed = 0, failed = 0,
               skipped = 0, pending = 0\<rparr>"
  let ?final = "\<lparr>total_scenarios = int (length entries),
              passed = tally (status_is ''pass'') entries,
              failed = tally (status_is ''fail'') entries,
              skipped = tally (status_is ''skip'') entries,
              pending = tally other_status entries\<rparr>"
  have loop: "count_statuses entries ?init = Inr ?final"
    by (simp add: count_statuses_dicts [OF assms])
  have run: "compute_statistics (JArr entries) =
      (case calculate_compliance [(''statistics'', JObj (stats_items ?final))] of
         Inl e \<Rightarrow> Inl e
       | Inr c \<Rightarrow> Inr (JObj (stats_items ?final @ [(''compliance_percentage'', JFloat c)])))"
    by (simp add: compute_statistics_def loop)
  have block: "JObj (stats_items ?final @ [(''compliance_percentage'', JFloat c)])
      = stats_block entries c" for c
    by (simp add: stats_block_def stats_items_def)
  show ?thesis
  proof (cases "entries = []")
    case True
    have "calculate_compliance [(''statistics'', JObj (stats_items ?final))] = Inr (Fl 0)"
      using True by (simp add: calculate_compliance_stats)
    then have "compute_statistics (JArr entries) = Inr (stats_block entries (Fl 0))"
      by (simp add: run block)
    moreover have "compliance_value entries (Fl 0)"
      using True by (simp add: compliance_value_def)
    ultimately show ?thesis by blast
  next
    case False
    have "\<exists>q. int_true_divide (tally (status_is ''pass'') entries) (int (length entries)) = Inr q"
      using False by (intro int_true_divide_fraction tally_bounds) simp
    then obtain q where
      q: "int_true_divide (tally (status_is ''pass'') entries) (int (length entries)) = Inr q"
      by blast
    have "calculate_compliance [(''statistics'', JObj (stats_items ?final))]
        = Inr (float_mul q (Fl 100))"
      using False by (simp add: calculate_compliance_stats q)
    then have "compute_statistics (JArr entries)
        = Inr (stats_block entries (float_mul q (Fl 100)))"
      by (simp add: run block)
    moreover have "compliance_value entries (float_mul q (Fl 100))"
      using False by (simp add: compliance_value_def q)
    ultimately show ?thesis by blast
  qed
qed

lemma update_statistics_entries:
  assumes "ledger_entries cd = Some entries"
  shows "\<exists>c. update_statistics cd = Inr (AList.update ''statistics'' (stats_block entries c) cd)
              \<and> compliance_value entries c"
proof -
  from ledger_entries_get [OF assms]
  have get: "dict_get cd ''scenarios'' (JArr []) = JArr entries" and wf: "list_all is_dict entries"
    by simp_all
  from compute_statistics_entries [OF wf] obtain c where
    "compute_statistics (JArr entries) = Inr (stats_block entries c)" "compliance_value entries c"
    by blast
  then show ?thesis by (auto simp: update_statistics_def get)
qed

lemma dict_get_update_other:
  "k \<noteq> k' \<Longrightarrow> dict_get (AList.update k v cd) k' dflt = dict_get cd k' dflt"
  by (simp add: dict_get_def update_conv')

lemma filter_update_other:
  "filter (\<lambda>kv. fst kv \<noteq> k) (AList.update k v cd) = filter (\<lambda>kv. fst kv \<noteq> k) cd"
  by (induction cd) auto

lemma update_statistics_shape:
  "update_statistics cd =
     (case compute_statistics (dict_get cd ''scenarios'' (JArr [])) of
        Inl e \<Rightarrow> Inl e
      | Inr st \<Rightarrow> Inr (AList.update ''statistics'' st cd))"
  by (simp add: update_statistics_def)

lemma statistics_block_update:
  "statistics_block (update_statistics cd) =
     (case compute_statistics (dict_get cd ''scenarios'' (JArr [])) of
        Inl e \<Rightarrow> Inl e
      | Inr st \<Rightarrow> Inr (Some st))"
  by (simp add: update_statistics_def statistics_block_def update_conv' split: sum.splits)

subsection \<open>The claims about \<^verbatim>\<open>update_statistics\<close>\<close>

lemma sample_entries: "ledger_entries sample_ledger = Some sample_scenarios"
  by (simp add: ledger_entries_def sample_ledger_def sample_scenarios_def)

lemma sample_length: "length sample_scenarios = 3" "sample_scenarios \<noteq> []"
  by (simp_all add: sample_scenarios_def)

lemma sample_tallies:
  "tally (status_is ''pass'') sample_scenarios = 1"
  "tally (status_is ''fail'') sample_scenarios = 0"
  "tally (status_is ''skip'') sample_scenarios = 1"
  "tally other_status sample_scenarios = 1"
  by (simp_all add: tally_def status_is_def other_status_def sample_scenarios_def)

text \<open>
  Claim C3. On every well-formed ledger the recomputation succeeds and stores a Statistics
  Block whose \<^verbatim>\<open>total_scenarios\<close> is the number of entries, whose \<^verbatim>\<open>passed\<close>,
  \<^verbatim>\<open>failed\<close> and \<^verbatim>\<open>skipped\<close> count the entries with status \<^verbatim>\<open>pass\<close>, \<^verbatim>\<open>fail\<close> and
  \<^verbatim>\<open>skip\<close>, and whose \<^verbatim>\<open>pending\<close> counts the entries with any other status or none; the
  four counters add up to the total. The statuses pass, pass, fail, pending give
  total 4, passed 2, failed 1, skipped 0, pending 1 and compliance percentage 50.0.
\<close>

theorem update_statistics_counts:
  assumes "ledger_entries cd = Some entries"
  shows "(\<exists>c. update_statistics cd
                = Inr (AList.update ''statistics'' (stats_block entries c) cd))
         \<and> tally (status_is ''pass'') entries + tally (status_is ''fail'') entries
             + tally (status_is ''skip'') entries + tally other_status entries
           = int (length entries)
         \<and> update_statistics
             [(''scenarios'',
               JArr [JObj [(''status'', JStr ''pass'')], JObj [(''status'', JStr ''pass'')],
                     JObj [(''status'', JStr ''fail'')], JObj [(''status'', JStr ''pending'')]])]
           = Inr [(''scenarios'',
                   JArr [JObj [(''status'', JStr ''pass'')], JObj [(''status'', JStr ''pass'')],
                         JObj [(''status'', JStr ''fail'')],
                         JObj [(''status'', JStr ''pending'')]]),
                  (''statistics'',
                   JObj [(''total_scenarios'', JInt 4), (''passed'', JInt 2),
                         (''failed'', JInt 1), (''skipped'', JInt 0), (''pending'', JInt 1),
                         (''compliance_percentage'', JFloat (Fl 50))])]"
proof (intro conjI)
  from update_statistics_entries [OF assms]
  show "\<exists>c. update_statistics cd = Inr (AList.update ''statistics'' (stats_block entries c) cd)"
    by blast
next
  show "tally (status_is ''pass'') entries + tally (status_is ''fail'') entries
          + tally (status_is ''skip'') entries + tally other_status entries
        = int (length entries)"
    by (rule tally_partition)
next
  show "update_statistics
         [(''scenarios'',
           JArr [JObj [(''status'', JStr ''pass'')], JObj [(''status'', JStr ''pass'')],
                 JObj [(''status'', JStr ''fail'')], JObj [(''status'', JStr ''pending'')]])]
       = Inr [(''scenarios'',
               JArr [JObj [(''status'', JStr ''pass'')], JObj [(''status'', JStr ''pass'')],
                     JObj [(''status'', JStr ''fail'')],
                     JObj [(''status'', JStr ''pending'')]]),
              (''statistics'',
               JObj [(''total_scenarios'', JInt 4), (''passed'', JInt 2),
                     (''failed'', JInt 1), (''skipped'', JInt 0), (''pending'', JInt 1),
                     (''compliance_percentage'', JFloat (Fl 50))])]"
    by code_simp
qed

theorem update_statistics_counts_witness:
  "ledger_entries sample_ledger = Some sample_scenarios
   \<and> (\<exists>c. update_statistics sample_ledger
            = Inr (AList.update ''statistics'' (stats_block sample_scenarios c) sample_ledger))
   \<and> tally (status_is ''pass'') sample_scenarios + tally (status_is ''fail'') sample_scenarios
       + tally (status_is ''skip'') sample_scenarios + tally other_status sample_scenarios
     = int (length sample_scenarios)"
  using update_statistics_counts [OF sample_entries] sample_entries by blast

text \<open>
  Claim C4. Recomputing twice gives what recomputing once gives: applied to its own
  result the recomputation returns that result, and where the first run raises, so does
  the composition.
\<close>

theorem update_statistics_idempotent:
  "(case update_statistics cd of Inl e \<Rightarrow> Inl e | Inr cd' \<Rightarrow> update_statistics cd')
     = update_statistics cd"
  by (simp add: update_statistics_def dict_get_update_other split: sum.splits)

text \<open>
  Claim C5. On a well-formed ledger without entries the recomputation succeeds and the
  compliance percentage is 0.0; with entries it succeeds too, the division raising
  neither \<^verbatim>\<open>ZeroDivisionError\<close> nor \<^verbatim>\<open>OverflowError\<close>, and the compliance percentage is
  the float product of the float quotient \<^verbatim>\<open>passed / total_scenarios\<close> and 100.0.
\<close>

theorem compliance_percentage_guarded:
  assumes "ledger_entries cd = Some entries"
  shows "\<exists>c. update_statistics cd = Inr (AList.update ''statistics'' (stats_block entries c) cd)
           \<and> (if entries = [] then c = Fl 0
               else \<exists>q. int_true_divide (tally (status_is ''pass'') entries)
                             (int (length entries)) = Inr q
                        \<and> c = float_mul q (Fl 100))"
proof -
  from update_statistics_entries [OF assms] obtain c where
    u: "update_statistics cd = Inr (AList.update ''statistics'' (stats_block entries c) cd)"
    and c: "compliance_value entries c"
    by blast
  from c have "if entries = [] then c = Fl 0
      else \<exists>q. int_true_divide (tally (status_is ''pass'') entries) (int (length entries)) = Inr q
               \<and> c = float_mul q (Fl 100)"
    by (auto simp: compliance_value_def split: sum.splits if_splits)
  with u show ?thesis by blast
qed

lemma empty_entries: "ledger_entries [] = Some []"
  by (simp add: ledger_entries_def)

lemma one_third: "int_true_divide 1 3 = Inr (Fl (6004799503160661 / 18014398509481984))"
  by code_simp

lemma one_third_percent:
  "float_mul (Fl (6004799503160661 / 18014398509481984)) (Fl 100)
     = Fl (2345624805922133 / 70368744177664)"
  by code_simp

theorem compliance_percentage_guarded_witness:
  "ledger_entries [] = Some []
   \<and> update_statistics [] = Inr [(''statistics'', stats_block [] (Fl 0))]
   \<and> ledger_entries sample_ledger = Some sample_scenarios
   \<and> update_statistics sample_ledger
       = Inr (AList.update ''statistics''
                (stats_block sample_scenarios (Fl (2345624805922133 / 70368744177664)))
                sample_ledger)"
proof -
  from compliance_percentage_guarded [OF empty_entries]
  have none: "update_statistics [] = Inr [(''statistics'', stats_block [] (Fl 0))]"
    by auto
  from compliance_percentage_guarded [OF sample_entries] obtain c q where
    u: "update_statistics sample_ledger
          = Inr (AList.update ''statistics'' (stats_block sample_scenarios c) sample_ledger)"
    and q: "int_true_divide (tally (status_is ''pass'') sample_scenarios)
              (int (length sample_scenarios)) = Inr q"
    and c: "c = float_mul q (Fl 100)"
    by (auto simp: sample_length)
  from q have "q = Fl (6004799503160661 / 18014398509481984)"
    by (simp add: sample_tallies sample_length one_third)
  with c have "c = Fl (2345624805922133 / 70368744177664)"
    by (simp add: one_third_percent)
  with u none show ?thesis
    using empty_entries sample_entries by simp
qed

text \<open>
  Claim C8. A successful recomputation changes nothing but the value under
  \<^verbatim>\<open>statistics\<close>: the other entries of the ledger object are the same, in the same
  order, so the \<^verbatim>\<open>scenarios\<close> list with every field of every entry is what it was, and
  every other key looks up the value it had.
\<close>

theorem update_statistics_frame:
  assumes "update_statistics cd = Inr cd'"
  shows "filter (\<lambda>kv. fst kv \<noteq> ''statistics'') cd' = filter (\<lambda>kv. fst kv \<noteq> ''statistics'') cd
         \<and> map_of cd' ''scenarios'' = map_of cd ''scenarios''
         \<and> (\<forall>k. k \<noteq> ''statistics'' \<longrightarrow> map_of cd' k = map_of cd k)"
  using assms
  by (auto simp: update_statistics_def filter_update_other update_conv' split: sum.splits)

lemma sample_updated:
  "update_statistics sample_ledger =
     Inr [(''generated'', JStr ''2024''),
          (''scenarios'', JArr sample_scenarios),
          (''statistics'',
           stats_block sample_scenarios (Fl (2345624805922133 / 70368744177664)))]"
proof -
  from update_statistics_entries [OF sample_entries] obtain c where
    u: "update_statistics sample_ledger
          = Inr (AList.update ''statistics'' (stats_block sample_scenarios c) sample_ledger)"
    and c: "compliance_value sample_scenarios c"
    by blast
  from c have "c = Fl (2345624805922133 / 70368744177664)"
    by (simp add: compliance_value_def sample_length sample_tallies one_third one_third_percent)
  with u show ?thesis by (simp add: sample_ledger_def)
qed

theorem update_statistics_frame_witness:
  "update_statistics sample_ledger =
     Inr [(''generated'', JStr ''2024''),
          (''scenarios'', JArr sample_scenarios),
          (''statistics'',
           stats_block sample_scenarios (Fl (2345624805922133 / 70368744177664)))]
   \<and> filter (\<lambda>kv. fst kv \<noteq> ''statistics'')
         [(''generated'', JStr ''2024''),
          (''scenarios'', JArr sample_scenarios),
          (''statistics'',
           stats_block sample_scenarios (Fl (2345624805922133 / 70368744177664)))]
       = filter (\<lambda>kv. fst kv \<noteq> ''statistics'') sample_ledger
   \<and> map_of
         [(''generated'', JStr ''2024''),
          (''scenarios'', JArr sample_scenarios),
          (''statistics'',
           stats_block sample_scenarios (Fl (2345624805922133 / 70368744177664)))]
         ''scenarios''
       = map_of sample_ledger ''scenarios''"
  using update_statistics_frame [OF sample_updated] sample_updated by blast

text \<open>
  Claim C10. The Statistics Block that the recomputation stores, or the exception it
  raises, is determined by the value under \<^verbatim>\<open>scenarios\<close>: two ledger objects with the same
  value there get the same block, whatever \<^verbatim>\<open>statistics\<close> and the other keys held before,
  and a ledger without the key gets the block of a ledger with an empty list.
\<close>

theorem statistics_depend_on_scenarios:
  "(map_of cd1 ''scenarios'' = map_of cd2 ''scenarios'' \<longrightarrow>
      statistics_block (update_statistics cd1) = statistics_block (update_statistics cd2))
   \<and> (map_of cd1 ''scenarios'' = None \<and> map_of cd2 ''scenarios'' = Some (JArr []) \<longrightarrow>
      statistics_block (update_statistics cd1) = statistics_block (update_statistics cd2))"
  by (simp add: statistics_block_update dict_get_def)

theorem statistics_depend_on_scenarios_witness:
  "map_of sample_ledger ''scenarios'' = map_of [(''scenarios'', JArr sample_scenarios)] ''scenarios''
   \<and> statistics_block (update_statistics sample_ledger)
       = statistics_block (update_statistics [(''scenarios'', JArr sample_scenarios)])
   \<and> map_of [(''statistics'', JNull)] ''scenarios'' = None
   \<and> map_of [(''scenarios'', JArr [])] ''scenarios'' = Some (JArr [])
   \<and> statistics_block (update_statistics [(''statistics'', JNull)])
       = statistics_block (update_statistics [(''scenarios'', JArr [])])"
  using statistics_depend_on_scenarios
          [of sample_ledger "[(''scenarios'', JArr sample_scenarios)]"]
        statistics_depend_on_scenarios [of "[(''statistics'', JNull)]" "[(''scenarios'', JArr [])]"]
  by (simp add: sample_ledger_def)

subsection \<open>The failure policy of \<^verbatim>\<open>main\<close>\<close>






section \<open>Properties of the parser\<close>

subsection \<open>Splitting and joining\<close>

lemma split_on_nonempty: "split_on c s \<noteq> []"
  by (induction s) (auto split: list.splits)

lemma split_on_no_sep: "c \<notin> set s \<Longrightarrow> split_on c s = [s]"
  by (induction s) auto

lemma split_on_first: "c \<notin> set a \<Longrightarrow> split_on c (a @ c # b) = a # split_on c b"
  by (induction a) auto

lemma join_Cons_head: "join sep ((x # h) # t) = x # join sep (h # t)"
  by (cases t) auto

lemma join_split_on: "join [d] (split_on c s) = map (\<lambda>x. if x = c then d else x) s"
proof (induction s)
  case Nil
  show ?case by simp
next
  case (Cons x s)
  obtain h t where ht: "split_on c s = h # t"
    using split_on_nonempty [of c s] by (cases "split_on c s") auto
  show ?case
  proof (cases "x = c")
    case True
    then show ?thesis using Cons ht by simp
  next
    case False
    then show ?thesis using Cons ht by (simp add: join_Cons_head)
  qed
qed

lemma join_dash: "join ''-'' (split_on (CHR ''/'') s) = dashed s"
  by (simp add: join_split_on dashed_def)

subsection \<open>Language area\<close>

lemma language_area_cases:
  "(CHR ''/'' \<notin> set leaf \<longrightarrow> determine_language_area leaf = ''unknown'')
   \<and> (CHR ''/'' \<notin> set first \<and> CHR ''/'' \<notin> set leaf \<longrightarrow>
        determine_language_area (first @ ''/'' @ leaf) = first)
   \<and> (CHR ''/'' \<notin> set first \<and> CHR ''/'' \<notin> set second \<longrightarrow>
        determine_language_area (first @ ''/'' @ second @ ''/'' @ rest) = first @ ''.'' @ second)"
proof (intro conjI impI)
  assume "CHR ''/'' \<notin> set leaf"
  then show "determine_language_area leaf = ''unknown''"
    by (simp add: determine_language_area_def split_on_no_sep)
next
  assume "CHR ''/'' \<notin> set first \<and> CHR ''/'' \<notin> set leaf"
  then show "determine_language_area (first @ ''/'' @ leaf) = first"
    by (simp add: determine_language_area_def split_on_first split_on_no_sep)
next
  assume a: "CHR ''/'' \<notin> set first \<and> CHR ''/'' \<notin> set second"
  obtain h t where ht: "split_on (CHR ''/'') rest = h # t"
    using split_on_nonempty [of "CHR ''/''" rest] by (cases "split_on (CHR ''/'') rest") auto
  from a show "determine_language_area (first @ ''/'' @ second @ ''/'' @ rest)
      = first @ ''.'' @ second"
    by (simp add: determine_language_area_def split_on_first ht)
qed

lemma language_area_example:
  "determine_language_area ''expressions/arithmetic.feature'' = ''expressions''"
  by (simp add: determine_language_area_def)

subsection \<open>Removing the extension\<close>

lemma py_replace_Nil: "old \<noteq> [] \<Longrightarrow> py_replace old new [] = []"
  by (simp add: py_replace.simps [of old new "[]"])

lemma py_replace_stem:
  assumes "ext \<noteq> []" "length ext = n"
    and "\<forall>k < length stem. take n (drop k (stem @ ext)) \<noteq> ext"
  shows "py_replace ext [] (stem @ ext) = stem"
  using assms(3)
proof (induction stem)
  case Nil
  show ?case
    using assms(1) by (simp add: py_replace.simps [of ext "[]" ext] py_replace_Nil)
next
  case (Cons c stem)
  from Cons.prems [rule_format, of 0] have here: "take n (c # stem @ ext) \<noteq> ext"
    by simp
  have "\<forall>k < length stem. take n (drop k (stem @ ext)) \<noteq> ext"
  proof (intro allI impI)
    fix k assume "k < length stem"
    then have "Suc k < length (c # stem)" by simp
    with Cons.prems have "take n (drop (Suc k) ((c # stem) @ ext)) \<noteq> ext"
      by blast
    then show "take n (drop k (stem @ ext)) \<noteq> ext" by simp
  qed
  with Cons.IH have rest: "py_replace ext [] (stem @ ext) = stem" by blast
  have "py_replace ext [] (c # stem @ ext) = c # py_replace ext [] (stem @ ext)"
    using here assms(1,2) by (subst py_replace.simps) simp
  with rest show ?case by simp
qed

lemma extension_only_stem:
  assumes "extension_only path"
  shows "py_replace ''.feature'' [] path = take (length path - 8) path"
    and "path = take (length path - 8) path @ ''.feature''"
proof -
  define stem where "stem = take (length path - 8) path"
  from assms have len: "8 \<le> length path" and suf: "drop (length path - 8) path = ''.feature''"
    and no: "\<forall>k < length path - 8. take 8 (drop k path) \<noteq> ''.feature''"
    by (auto simp: extension_only_def list_all_iff)
  from suf have p: "path = stem @ ''.feature''"
    unfolding stem_def by (metis append_take_drop_id)
  then show "path = take (length path - 8) path @ ''.feature''"
    by (simp add: stem_def)
  have ls: "length stem = length path - 8" by (simp add: stem_def)
  have "\<forall>k < length stem. take 8 (drop k (stem @ ''.feature'')) \<noteq> ''.feature''"
    using no unfolding ls p [symmetric] .
  then have "py_replace ''.feature'' [] (stem @ ''.feature'') = stem"
    by (intro py_replace_stem [where n = 8]) simp_all
  then show "py_replace ''.feature'' [] path = take (length path - 8) path"
    unfolding p [symmetric] by (simp add: stem_def)
qed

lemma strip_extension_stem:
  "extension_only path \<Longrightarrow> strip_extension path = take (length path - 8) path"
  by (simp add: extension_only_def strip_extension_def)

lemma make_scenario_id_spec:
  "extension_only path \<Longrightarrow> make_scenario_id path i = spec_scenario_id path (i + 1)"
  by (simp add: make_scenario_id_def spec_scenario_id_def extension_only_stem(1)
      strip_extension_stem)

lemma make_scenario_id_dashed:
  "make_scenario_id path i = dashed (py_replace ''.feature'' [] path) @ ''-'' @ format_02d (i + 1)"
  by (simp add: make_scenario_id_def join_dash)

subsection \<open>The occurrence index\<close>

lemma digit_char: "k < 10 \<Longrightarrow> (of_char (char_of (48 + k)) :: nat) = 48 + (k :: nat)"
  by simp

lemma digits_no_dash: "CHR ''-'' \<notin> set (digits n)"
proof (induction n rule: digits.induct)
  case (1 n)
  have d: "char_of (48 + k) \<noteq> CHR ''-''" if "k < 10" for k :: nat
  proof
    assume "char_of (48 + k) = CHR ''-''"
    then have "(of_char (char_of (48 + k)) :: nat) = of_char (CHR ''-'')" by simp
    with that show False by (simp add: digit_char)
  qed
  show ?case
  proof (cases "n < 10")
    case True
    then show ?thesis using d [of n] by (simp add: digits.simps [of n])
  next
    case False
    with "1.IH" have "CHR ''-'' \<notin> set (digits (n div 10))" by simp
    moreover have "char_of (48 + n mod 10) \<noteq> CHR ''-''" by (rule d) simp
    ultimately show ?thesis using False by (simp add: digits.simps [of n])
  qed
qed

lemma format_no_dash: "CHR ''-'' \<notin> set (format_02d n)"
  by (auto simp: format_02d_def digits_no_dash)

lemma decimal_value_snoc:
  "decimal_value (ds @ [c]) = 10 * decimal_value ds + (of_char c - 48)"
  by (simp add: decimal_value_def)

lemma decimal_value_digits: "decimal_value (digits n) = n"
proof (induction n rule: digits.induct)
  case (1 n)
  show ?case
  proof (cases "n < 10")
    case True
    then show ?thesis by (simp add: digits.simps [of n] decimal_value_def)
  next
    case False
    with "1.IH" have "decimal_value (digits (n div 10)) = n div 10" by simp
    then show ?thesis
      using False by (simp add: digits.simps [of n] decimal_value_snoc)
  qed
qed

lemma decimal_value_zeros:
  "decimal_value (replicate k (CHR ''0'') @ ds) = decimal_value ds"
proof -
  have "foldl (\<lambda>a c. 10 * a + (of_char c - 48)) (0::nat) (replicate k (CHR ''0'')) = 0"
    by (induction k) simp_all
  then show ?thesis by (simp add: decimal_value_def)
qed

lemma decimal_value_format: "decimal_value (format_02d n) = n"
  by (simp add: format_02d_def decimal_value_zeros decimal_value_digits)

lemma format_02d_inj: "format_02d m = format_02d n \<Longrightarrow> m = n"
  by (metis decimal_value_format)

subsection \<open>When two identifiers are equal\<close>

lemma last_dash_split:
  assumes "CHR ''-'' \<notin> set d1" "CHR ''-'' \<notin> set d2"
    and "s1 @ ''-'' @ d1 = s2 @ ''-'' @ d2"
  shows "s1 = s2 \<and> d1 = d2"
proof -
  from assms(3) have "rev (s1 @ ''-'' @ d1) = rev (s2 @ ''-'' @ d2)" by simp
  then have "rev d1 @ CHR ''-'' # rev s1 = rev d2 @ CHR ''-'' # rev s2" by simp
  then have "takeWhile (\<lambda>c. c \<noteq> CHR ''-'') (rev d1 @ CHR ''-'' # rev s1)
      = takeWhile (\<lambda>c. c \<noteq> CHR ''-'') (rev d2 @ CHR ''-'' # rev s2)"
    by simp
  moreover have "takeWhile (\<lambda>c. c \<noteq> CHR ''-'') (rev d @ CHR ''-'' # r) = rev d"
    if "CHR ''-'' \<notin> set d" for d r
    using that by (subst takeWhile_append2) auto
  ultimately have "rev d1 = rev d2" using assms(1,2) by simp
  then have "d1 = d2" by simp
  with assms(3) show ?thesis by simp
qed

lemma make_scenario_id_eq:
  "make_scenario_id p i = make_scenario_id q j \<longleftrightarrow>
     dashed (py_replace ''.feature'' [] p) = dashed (py_replace ''.feature'' [] q) \<and> i = j"
proof
  assume "make_scenario_id p i = make_scenario_id q j"
  then have "dashed (py_replace ''.feature'' [] p) = dashed (py_replace ''.feature'' [] q)
      \<and> format_02d (i + 1) = format_02d (j + 1)"
    unfolding make_scenario_id_dashed by (intro last_dash_split format_no_dash)
  then show "dashed (py_replace ''.feature'' [] p) = dashed (py_replace ''.feature'' [] q) \<and> i = j"
    using format_02d_inj by fastforce
next
  assume "dashed (py_replace ''.feature'' [] p) = dashed (py_replace ''.feature'' [] q) \<and> i = j"
  then show "make_scenario_id p i = make_scenario_id q j"
    by (simp add: make_scenario_id_dashed)
qed

lemma dashed_append: "dashed (a @ b) = dashed a @ dashed b"
  by (simp add: dashed_def)

lemma same_stem_same_dashed:
  assumes "extension_only p" "extension_only q"
    and "dashed (py_replace ''.feature'' [] p) = dashed (py_replace ''.feature'' [] q)"
  shows "dashed p = dashed q"
proof -
  have "dashed p = dashed (take (length p - 8) p) @ dashed ''.feature''"
    using extension_only_stem(2) [OF assms(1)] by (metis dashed_append)
  moreover have "dashed q = dashed (take (length q - 8) q) @ dashed ''.feature''"
    using extension_only_stem(2) [OF assms(2)] by (metis dashed_append)
  ultimately show ?thesis
    using assms(3) by (simp add: extension_only_stem(1) assms(1,2))
qed

subsection \<open>Identifiers of a corpus run\<close>

lemma scenario_ids_of_document:
  "map scenario_id (parse_feature_file path content)
     = map (make_scenario_id path) [0 ..< length (re_findall False scenario_pattern content)]"
proof -
  define found where "found = re_findall False scenario_pattern content"
  have e: "map fst (enumerate 0 found) = [0 ..< length found]"
    by (simp add: map_fst_enumerate)
  have "map scenario_id (parse_feature_file path content)
      = map (\<lambda>x. make_scenario_id path (fst x)) (enumerate 0 found)"
    by (simp add: parse_feature_file_def Let_def case_prod_beta comp_def found_def)
  also have "\<dots> = map (make_scenario_id path) (map fst (enumerate 0 found))"
    by (simp only: map_map comp_def)
  also have "\<dots> = map (make_scenario_id path) [0 ..< length found]"
    by (simp only: e)
  finally show ?thesis by (simp only: found_def)
qed

lemma ids_distinct_in_document: "distinct (map scenario_id (parse_feature_file path content))"
  unfolding scenario_ids_of_document
  by (rule distinct_map [THEN iffD2]) (simp add: inj_on_def make_scenario_id_eq)

lemma id_in_all_scenarios:
  assumes "x \<in> set (map scenario_id (all_scenarios docs))"
  shows "\<exists>path content i. (path, content) \<in> set docs \<and> x = make_scenario_id path i"
proof -
  from assms obtain path content where
    d: "(path, content) \<in> set docs"
    and x: "x \<in> set (map scenario_id (parse_feature_file path content))"
    by (auto simp: all_scenarios_def)
  from x obtain i where "x = make_scenario_id path i"
    unfolding scenario_ids_of_document by auto
  with d show ?thesis by blast
qed

lemma dashed_stem_eq:
  assumes "extension_only p" "extension_only q"
  shows "dashed (py_replace ''.feature'' [] p) = dashed (py_replace ''.feature'' [] q)
     \<longleftrightarrow> dashed p = dashed q"
proof
  assume "dashed (py_replace ''.feature'' [] p) = dashed (py_replace ''.feature'' [] q)"
  with assms show "dashed p = dashed q" by (rule same_stem_same_dashed)
next
  assume e: "dashed p = dashed q"
  have "dashed p = dashed (py_replace ''.feature'' [] p) @ dashed ''.feature''"
    using extension_only_stem [OF assms(1)] by (metis dashed_append)
  moreover have "dashed q = dashed (py_replace ''.feature'' [] q) @ dashed ''.feature''"
    using extension_only_stem [OF assms(2)] by (metis dashed_append)
  ultimately show "dashed (py_replace ''.feature'' [] p) = dashed (py_replace ''.feature'' [] q)"
    using e by simp
qed

lemma all_scenarios_Cons:
  "all_scenarios ((path, content) # docs) = parse_feature_file path content @ all_scenarios docs"
  by (simp add: all_scenarios_def)

lemma ids_distinct_in_corpus:
  assumes "\<forall>d \<in> set docs. extension_only (fst d)"
    and "distinct (map (\<lambda>d. dashed (fst d)) docs)"
  shows "distinct (map scenario_id (all_scenarios docs))"
  using assms
proof (induction docs)
  case Nil
  show ?case by (simp add: all_scenarios_def)
next
  case (Cons d docs)
  obtain path content where d: "d = (path, content)" by (cases d)
  from Cons.prems have ext: "extension_only path"
    and exts: "\<forall>d \<in> set docs. extension_only (fst d)"
    and fresh: "dashed path \<notin> (\<lambda>d. dashed (fst d)) ` set docs"
    and rest: "distinct (map (\<lambda>d. dashed (fst d)) docs)"
    by (auto simp: d)
  have ih: "distinct (map scenario_id (all_scenarios docs))"
    using exts rest by (rule Cons.IH)
  have disjoint: "set (map scenario_id (parse_feature_file path content))
      \<inter> set (map scenario_id (all_scenarios docs)) = {}"
  proof (rule ccontr)
    assume "set (map scenario_id (parse_feature_file path content))
      \<inter> set (map scenario_id (all_scenarios docs)) \<noteq> {}"
    then obtain x where x1: "x \<in> set (map scenario_id (parse_feature_file path content))"
      and x2: "x \<in> set (map scenario_id (all_scenarios docs))" by blast
    from x1 obtain i where i: "x = make_scenario_id path i"
      unfolding scenario_ids_of_document by auto
    from id_in_all_scenarios [OF x2] obtain q c j where
      q: "(q, c) \<in> set docs" and j: "x = make_scenario_id q j" by blast
    from q exts have "extension_only q" by auto
    moreover from i j have "dashed (py_replace ''.feature'' [] path)
        = dashed (py_replace ''.feature'' [] q)"
      by (simp add: make_scenario_id_eq)
    ultimately have "dashed path = dashed q"
      using ext by (simp add: dashed_stem_eq)
    with q fresh show False by force
  qed
  show ?case
    unfolding d all_scenarios_Cons map_append distinct_append
    using ids_distinct_in_document ih disjoint by blast
qed

subsection \<open>Evaluations on the sample documents\<close>

lemma found_one: "re_findall False scenario_pattern one_scenario = [[''Scenario'', ''x'']]"
  by code_simp

lemma found_addition:
  "re_findall False scenario_pattern doc_addition = [[''Scenario'', ''1+1''], [''Scenario'', ''2+2'']]"
  by code_simp

lemma found_mixed:
  "re_findall False scenario_pattern doc_mixed = [[''Scenario'', ''a''], [''Scenario'', ''b'']]"
  by code_simp

lemma mixed_parse_phrase: "found (phrase ''should fail to parse'') doc_mixed"
  by code_simp

lemma mixed_runtime_phrase: "found (phrase ''Then the result should be'') doc_mixed"
  by code_simp

lemma id_values:
  "make_scenario_id ''x.features/a.feature'' 0 = ''xs-a-01''"
  "spec_scenario_id ''x.features/a.feature'' 1 = ''x.features-a-01''"
  "make_scenario_id ''expressions/arithmetic.feature'' 0 = ''expressions-arithmetic-01''"
  "make_scenario_id ''expressions/arithmetic.feature'' 1 = ''expressions-arithmetic-02''"
  "make_scenario_id ''a/b.feature'' 0 = ''a-b-01''"
  "make_scenario_id ''a-b.feature'' 0 = ''a-b-01''"
  by code_simp+

lemma ext_only_values:
  "extension_only ''a/b.feature''" "extension_only ''c.feature''"
  "\<not> extension_only ''x.features/a.feature''"
  by code_simp+

lemma ids_one_scenario:
  "map scenario_id (parse_feature_file path one_scenario) = [make_scenario_id path 0]"
  by (simp add: scenario_ids_of_document found_one)

lemma ids_addition:
  "map scenario_id (parse_feature_file path doc_addition)
     = [make_scenario_id path 0, make_scenario_id path 1]"
proof -
  have "[0 ..< 2] = [0, 1 :: nat]" by (simp add: upt_rec)
  then show ?thesis by (simp add: scenario_ids_of_document found_addition)
qed

lemma map_constant: "\<forall>x \<in> set xs. f x = v \<Longrightarrow> map f xs = replicate (length xs) v"
  by (induction xs) auto

lemma length_addition: "length (parse_feature_file path doc_addition) = 2"
  by (simp add: parse_feature_file_def Let_def found_addition)

lemma length_mixed: "length (parse_feature_file path doc_mixed) = 2"
  by (simp add: parse_feature_file_def Let_def found_mixed)

section \<open>The claims about the parser\<close>

text \<open>
  Claim C2 fails for paths that differ only in a separator and a dash. The documents
  \<^verbatim>\<open>a/b.feature\<close> and \<^verbatim>\<open>a-b.feature\<close> are two files of one corpus; the first scenario of
  each gets the identifier \<^verbatim>\<open>a-b-01\<close>, so two distinct pairs of path and index have one
  identifier and the manifest holds it twice.
\<close>

theorem scenario_id_clash_counterexample:
  "''a/b.feature'' \<noteq> ''a-b.feature''
   \<and> make_scenario_id ''a/b.feature'' 0 = make_scenario_id ''a-b.feature'' 0
   \<and> distinct (map fst corpus_clash)
   \<and> map scenario_id (all_scenarios corpus_clash) = [''a-b-01'', ''a-b-01'']
   \<and> \<not> distinct (map scenario_id (all_scenarios corpus_clash))"
  by (simp add: corpus_clash_def all_scenarios_def ids_one_scenario id_values)

text \<open>
  Claim C2, as the code has it. The identifiers of a document are a function of its path
  and of the number of its scenario lines, the \<open>i\<close>-th being made from the path and
  \<open>i\<close>, and they are pairwise distinct. For two paths with \<^verbatim>\<open>.feature\<close> as extension only,
  the identifiers of two pairs of path and index are equal exactly when the indices are
  equal and the paths are equal once every separator is replaced by a dash. So the
  identifiers of a corpus run are pairwise distinct when its paths have \<^verbatim>\<open>.feature\<close> as
  extension only and remain pairwise distinct under that replacement.
\<close>

theorem scenario_ids_unique:
  "map scenario_id (parse_feature_file path content)
     = map (make_scenario_id path) [0 ..< length (re_findall False scenario_pattern content)]
   \<and> distinct (map scenario_id (parse_feature_file path content))
   \<and> (extension_only p \<and> extension_only q \<longrightarrow>
        (make_scenario_id p i = make_scenario_id q j \<longleftrightarrow> dashed p = dashed q \<and> i = j))
   \<and> ((\<forall>d \<in> set docs. extension_only (fst d)) \<and> distinct (map (\<lambda>d. dashed (fst d)) docs) \<longrightarrow>
        distinct (map scenario_id (all_scenarios docs)))"
  using scenario_ids_of_document [of path content] ids_distinct_in_document [of path content]
    ids_distinct_in_corpus [of docs]
  by (simp add: make_scenario_id_eq dashed_stem_eq)

theorem scenario_ids_unique_witness:
  "extension_only ''a/b.feature'' \<and> extension_only ''c.feature''
   \<and> make_scenario_id ''a/b.feature'' 0 \<noteq> make_scenario_id ''c.feature'' 0
   \<and> list_all (\<lambda>d. extension_only (fst d)) corpus_plain
   \<and> distinct (map (\<lambda>d. dashed (fst d)) corpus_plain)
   \<and> distinct (map scenario_id (all_scenarios corpus_plain))"
  using scenario_ids_unique [of _ _ "''a/b.feature''" "''c.feature''" 0 0 corpus_plain]
  by (simp add: corpus_plain_def ext_only_values dashed_def)

text \<open>
  Claim C6 fails where \<^verbatim>\<open>.feature\<close> occurs in the path before the extension: the script
  deletes every occurrence, not the extension. For the document
  \<^verbatim>\<open>x.features/a.feature\<close> with one scenario the script gives \<^verbatim>\<open>xs-a-01\<close>, where
  stripping the extension, splitting, joining with dashes and appending the index gives
  \<^verbatim>\<open>x.features-a-01\<close>.
\<close>

theorem scenario_id_removes_every_occurrence:
  "map scenario_id (parse_feature_file ''x.features/a.feature'' one_scenario) = [''xs-a-01'']
   \<and> spec_scenario_id ''x.features/a.feature'' 1 = ''x.features-a-01''
   \<and> map scenario_id (parse_feature_file ''x.features/a.feature'' one_scenario)
       \<noteq> [spec_scenario_id ''x.features/a.feature'' 1]"
  using id_values by (simp add: ids_one_scenario)

text \<open>
  On the example of the specification the script gives the identifiers the
  specification names, and on every path with \<^verbatim>\<open>.feature\<close> as extension only it follows
  the derivation of the specification (\<open>make_scenario_id_spec\<close>).
\<close>

lemma scenario_id_example:
  "map scenario_id (parse_feature_file ''expressions/arithmetic.feature'' doc_addition)
     = [''expressions-arithmetic-01'', ''expressions-arithmetic-02'']"
  using id_values by (simp add: ids_addition)

text \<open>
  Claim C7 fails for a document at the top of the corpus: the path
  \<^verbatim>\<open>arithmetic.feature\<close> has no segment beyond the leaf, which is fewer than two, and its
  language area is \<^verbatim>\<open>unknown\<close>, not its first segment.
\<close>

theorem language_area_top_level_counterexample:
  "length (split_on (CHR ''/'') ''arithmetic.feature'') - 1 < 2
   \<and> determine_language_area ''arithmetic.feature'' = ''unknown''
   \<and> determine_language_area ''arithmetic.feature''
       \<noteq> hd (split_on (CHR ''/'') ''arithmetic.feature'')"
  by (simp add: determine_language_area_def)

text \<open>
  Claim C7, as the code has it. The language area of a path without a directory is
  \<^verbatim>\<open>unknown\<close>; of a path with one directory before the leaf it is that directory; of a
  path with two or more directories it is the first, a dot and the second. Every
  scenario of a document carries the language area of the path of the document. The
  path \<^verbatim>\<open>expressions/arithmetic.feature\<close> gives \<^verbatim>\<open>expressions\<close>.
\<close>

theorem language_area_by_depth:
  "(CHR ''/'' \<notin> set leaf \<longrightarrow> determine_language_area leaf = ''unknown'')
   \<and> (CHR ''/'' \<notin> set first \<and> CHR ''/'' \<notin> set leaf \<longrightarrow>
        determine_language_area (first @ ''/'' @ leaf) = first)
   \<and> (CHR ''/'' \<notin> set first \<and> CHR ''/'' \<notin> set second \<longrightarrow>
        determine_language_area (first @ ''/'' @ second @ ''/'' @ rest) = first @ ''.'' @ second)
   \<and> (\<forall>s \<in> set (parse_feature_file path content). language_area s = determine_language_area path)
   \<and> determine_language_area ''expressions/arithmetic.feature'' = ''expressions''"
  using language_area_cases [of leaf first second rest] language_area_example
  by (auto simp: parse_feature_file_def Let_def)

theorem language_area_by_depth_witness:
  "CHR ''/'' \<notin> set ''arithmetic.feature'' \<and> CHR ''/'' \<notin> set ''expressions''
   \<and> CHR ''/'' \<notin> set ''literals''
   \<and> determine_language_area ''arithmetic.feature'' = ''unknown''
   \<and> determine_language_area ''expressions/arithmetic.feature'' = ''expressions''
   \<and> determine_language_area ''expressions/literals/deep/arithmetic.feature''
        = ''expressions.literals''
   \<and> map language_area (parse_feature_file ''expressions/arithmetic.feature'' doc_addition)
        = [''expressions'', ''expressions'']"
proof -
  note facts = language_area_by_depth [of "''arithmetic.feature''" "''expressions''"
      "''literals''" "''deep/arithmetic.feature''" "''expressions/arithmetic.feature''"
      doc_addition]
  from facts have "\<forall>s \<in> set (parse_feature_file ''expressions/arithmetic.feature'' doc_addition).
      language_area s = ''expressions''"
    by simp
  then have "map language_area (parse_feature_file ''expressions/arithmetic.feature'' doc_addition)
      = replicate 2 ''expressions''"
    by (simp only: map_constant length_addition)
  then have "map language_area (parse_feature_file ''expressions/arithmetic.feature'' doc_addition)
      = [''expressions'', ''expressions'']"
    by (simp add: numeral_2_eq_2)
  with facts show ?thesis by simp
qed

text \<open>
  Claim C1. If the text of a document matches one of the parse/validate-only indicators,
  ignoring case, then the classification is \<^verbatim>\<open>False\<close> whatever else the text matches,
  and every scenario of the document has \<^verbatim>\<open>requires_runtime\<close> \<^verbatim>\<open>False\<close>.
\<close>

theorem parse_only_takes_precedence:
  assumes "\<exists>indicator \<in> set parse_validate_indicators. found indicator content"
  shows "\<not> check_requires_runtime content name
    \<and> (\<forall>s \<in> set (parse_feature_file path content). \<not> requires_runtime s)"
  using assms by (auto simp: check_requires_runtime_def list_ex_iff parse_feature_file_def Let_def)

theorem parse_only_takes_precedence_witness:
  "found (phrase ''should fail to parse'') doc_mixed
   \<and> found (phrase ''Then the result should be'') doc_mixed
   \<and> \<not> check_requires_runtime doc_mixed ''a''
   \<and> map requires_runtime (parse_feature_file ''a/b.feature'' doc_mixed) = [False, False]"
proof -
  have p: "\<exists>indicator \<in> set parse_validate_indicators. found indicator doc_mixed"
    using mixed_parse_phrase by (auto simp: parse_validate_indicators_def)
  note facts = parse_only_takes_precedence [OF p, of "''a''" "''a/b.feature''"]
  from facts have "\<forall>s \<in> set (parse_feature_file ''a/b.feature'' doc_mixed).
      requires_runtime s = False"
    by simp
  then have "map requires_runtime (parse_feature_file ''a/b.feature'' doc_mixed)
      = replicate 2 False"
    by (simp only: map_constant length_mixed)
  then have "map requires_runtime (parse_feature_file ''a/b.feature'' doc_mixed) = [False, False]"
    by (simp add: numeral_2_eq_2)
  with facts mixed_parse_phrase mixed_runtime_phrase show ?thesis by simp
qed

end
